theory Spec2Isabelle
  imports Complex_Main "HOL-Library.Word"
begin

unbundle bit_operations_syntax

section \<open>Data model of \<open>clue_access/schemas.py\<close>\<close>

text \<open>
  A Python \<open>bytes\<close> object is a list of bytes; indexing one gives an \<open>int\<close> between
  0 and 255, read here with \<open>unat\<close> (offsets and lengths) or \<open>uint\<close> (the unbounded
  integers of the bit arithmetic). A Python \<open>str\<close> is a sequence of Unicode code
  points.
\<close>

type_synonym u8 = "8 word"
type_synonym bytes = "u8 list"
type_synonym pystr = "nat list"

text \<open>
  The exceptions the decoder can raise, under their Python names. The specification
  calls them BufferMalformed (\<open>IndexError\<close>), SizeMismatch (\<open>StructError\<close>, Python's
  \<open>struct.error\<close>), EncodingError (\<open>UnicodeDecodeError\<close>) and RangeError
  (\<open>ValueError\<close>, raised by an \<open>IntEnum\<close> call on a value without a member).
  The specification's FieldMissing has no counterpart in the source.
\<close>

datatype error = AssertionError | IndexError | UnicodeDecodeError | StructError | ValueError

datatype QTMode =
  UNKNOWN | INSTALLER | DEALER | USER | NOSALE | BCA | VALET | BOOTLOAD | UNCONFIGURED

datatype QTColor = ORANGE | BLUE | LIGHTGREEN | RED | MEDIUMPURPLE | LIGHTGREY



text \<open>
  The calls \<open>QTMode(n)\<close> and \<open>QTColor(n)\<close>: the member whose value is \<open>n\<close>, or
  \<open>ValueError\<close> when there is none.
\<close>

definition QTMode_of_int :: "int \<Rightarrow> error + QTMode" where
  "QTMode_of_int n =
     (if n = 0 then Inr UNKNOWN
      else if n = 1 then Inr INSTALLER
      else if n = 2 then Inr DEALER
      else if n = 3 then Inr USER
      else if n = 4 then Inr NOSALE
      else if n = 5 then Inr BCA
      else if n = 6 then Inr VALET
      else if n = 7 then Inr BOOTLOAD
      else if n = 8 then Inr UNCONFIGURED
      else Inl ValueError)"

definition QTColor_of_int :: "int \<Rightarrow> error + QTColor" where
  "QTColor_of_int n =
     (if n = 1 then Inr ORANGE
      else if n = 2 then Inr BLUE
      else if n = 3 then Inr LIGHTGREEN
      else if n = 4 then Inr RED
      else if n = 5 then Inr MEDIUMPURPLE
      else if n = 6 then Inr LIGHTGREY
      else Inl ValueError)"

text \<open>
  The fields of \<open>BLEDevice\<close> that \<open>QTDevice.from_ble_device\<close> reads (\<open>mac\<close>, \<open>name\<close>,
  \<open>raw_data\<close>, \<open>id\<close>; prefixed, since \<open>id\<close> is a HOL constant and \<open>QTDevice\<close> has a
  \<open>name\<close> and a \<open>mac\<close> of its own), and the table row \<open>QTDevice\<close>. The column \<open>vbat\<close>
  is a Python \<open>float\<close>; the model keeps the exact quotient, of which the float is the
  nearest double.
\<close>

record BLEDevice =
  dev_mac :: pystr
  dev_name :: "pystr option"
  dev_raw_data :: "bytes option"
  dev_id :: "int option"

record QTDevice =
  ble_device_id :: int
  name :: pystr
  mac :: pystr
  color :: QTColor
  mode :: QTMode
  armed :: bool
  snowmode :: bool
  vbat :: real

section \<open>The advertising-data field parser: \<open>iter_fields\<close>\<close>

text \<open>
  The slice \<open>data[a:b]\<close> for indices \<open>0 \<le> a\<close>, \<open>0 \<le> b\<close>: Python clips both ends to the
  length of \<open>data\<close> and never raises.
\<close>

definition slice :: "'a list \<Rightarrow> nat \<Rightarrow> nat \<Rightarrow> 'a list" where
  "slice xs a b = take (b - a) (drop a xs)"

text \<open>
  \<open>iter_fields\<close> is a generator. Its run is the list of pairs it yields, in order,
  and the way it ends: \<open>None\<close> when it returns (the loop condition fails, or a zero
  length byte is met), \<open>Some e\<close> when the exception \<open>e\<close> leaves it. The only exception
  is the \<open>IndexError\<close> of \<open>data[offset + 1]\<close>: the slice of the value never raises.
  \<open>iter_fields_from data offset\<close> is the \<open>while\<close> loop entered with the given offset.
\<close>

type_synonym field = "u8 \<times> bytes"
type_synonym run = "field list \<times> error option"

function iter_fields_from :: "bytes \<Rightarrow> nat \<Rightarrow> run" where
  "iter_fields_from data offset =
     (if offset < length data then
        (let len = unat (data ! offset) in
         if len = 0 then ([], None)
         else if length data \<le> offset + 1 then ([], Some IndexError)
         else
           (let type_id = data ! (offset + 1);
                val = slice data (offset + 2) (offset + len + 1);
                (ys, e) = iter_fields_from data (offset + len + 1)
            in ((type_id, val) # ys, e)))
      else ([], None))"
  by pat_completeness auto
termination
  by (relation "measure (\<lambda>(data, offset). length data - offset)") auto

declare iter_fields_from.simps [simp del]

definition iter_fields :: "bytes \<Rightarrow> run" where
  "iter_fields data = iter_fields_from data 0"

text \<open>
  The number of times the body of the \<open>while\<close> loop is entered when the loop starts
  at \<open>offset\<close>: the same control flow as \<open>iter_fields_from\<close>, counting instead of
  yielding.
\<close>

function loop_iterations :: "bytes \<Rightarrow> nat \<Rightarrow> nat" where
  "loop_iterations data offset =
     (if offset < length data then
        (let len = unat (data ! offset) in
         if len = 0 then 1
         else if length data \<le> offset + 1 then 1
         else 1 + loop_iterations data (offset + len + 1))
      else 0)"
  by pat_completeness auto
termination
  by (relation "measure (\<lambda>(data, offset). length data - offset)") auto

declare loop_iterations.simps [simp del]

section \<open>Collecting the fields\<close>

text \<open>
  The loop \<open>for field_type, value in iter_fields(raw_data): fields[field_type] = value\<close>
  over a dictionary that starts empty. An exception of the generator leaves the
  loop and the whole call.
\<close>

definition store_fields :: "field list \<Rightarrow> (u8 \<rightharpoonup> bytes)" where
  "store_fields fs =
     foldl (\<lambda>fields_dict (field_type, val). fields_dict(field_type \<mapsto> val)) Map.empty fs"

definition collect_fields :: "bytes \<Rightarrow> error + (u8 \<rightharpoonup> bytes)" where
  "collect_fields raw =
     (case iter_fields raw of
        (fs, None) \<Rightarrow> Inr (store_fields fs)
      | (fs, Some e) \<Rightarrow> Inl e)"

section \<open>The telemetry decoder\<close>

text \<open>
  \<open>bytes.decode("utf-8")\<close> is Python's strict UTF-8 codec: it accepts exactly the
  well-formed byte sequences of the Unicode standard (no overlong forms, no
  surrogates, nothing above U+10FFFF) and raises \<open>UnicodeDecodeError\<close> on anything
  else. \<open>second_byte_ok\<close> is the range of the byte after a lead byte of a three- or
  four-byte form.
\<close>

definition is_continuation :: "u8 \<Rightarrow> bool" where
  "is_continuation b = (0x80 \<le> b \<and> b \<le> 0xBF)"

definition second_byte_ok :: "u8 \<Rightarrow> u8 \<Rightarrow> bool" where
  "second_byte_ok b b1 =
     (if b = 0xE0 then 0xA0 \<le> b1 \<and> b1 \<le> 0xBF
      else if b = 0xED then 0x80 \<le> b1 \<and> b1 \<le> 0x9F
      else if b = 0xF0 then 0x90 \<le> b1 \<and> b1 \<le> 0xBF
      else if b = 0xF4 then 0x80 \<le> b1 \<and> b1 \<le> 0x8F
      else is_continuation b1)"

definition payload_bits :: "u8 \<Rightarrow> nat" where
  "payload_bits b = unat b mod 64"

definition emit :: "nat \<Rightarrow> error + pystr \<Rightarrow> error + pystr" where
  "emit c r = (case r of Inl e \<Rightarrow> Inl e | Inr cs \<Rightarrow> Inr (c # cs))"

fun utf8_decode :: "bytes \<Rightarrow> error + pystr" where
  "utf8_decode [] = Inr []"
| "utf8_decode (b # bs) =
     (if b < 0x80 then emit (unat b) (utf8_decode bs)
      else if 0xC2 \<le> b \<and> b \<le> 0xDF then
        (case bs of
           b1 # r \<Rightarrow>
             if is_continuation b1
             then emit (unat b mod 32 * 64 + payload_bits b1) (utf8_decode r)
             else Inl UnicodeDecodeError
         | _ \<Rightarrow> Inl UnicodeDecodeError)
      else if 0xE0 \<le> b \<and> b \<le> 0xEF then
        (case bs of
           b1 # b2 # r \<Rightarrow>
             if second_byte_ok b b1 \<and> is_continuation b2
             then emit (unat b mod 16 * 4096 + payload_bits b1 * 64 + payload_bits b2)
                    (utf8_decode r)
             else Inl UnicodeDecodeError
         | _ \<Rightarrow> Inl UnicodeDecodeError)
      else if 0xF0 \<le> b \<and> b \<le> 0xF4 then
        (case bs of
           b1 # b2 # b3 # r \<Rightarrow>
             if second_byte_ok b b1 \<and> is_continuation b2 \<and> is_continuation b3
             then emit (unat b mod 8 * 262144 + payload_bits b1 * 4096
                        + payload_bits b2 * 64 + payload_bits b3)
                    (utf8_decode r)
             else Inl UnicodeDecodeError
         | _ \<Rightarrow> Inl UnicodeDecodeError)
      else Inl UnicodeDecodeError)"

text \<open>
  \<open>struct.unpack("<BBBBBB", data)\<close>: six unsigned bytes as integers;
  \<open>struct.error\<close> unless \<open>data\<close> is exactly six bytes long.
\<close>

definition struct_unpack_BBBBBB :: "bytes \<Rightarrow> error + int list" where
  "struct_unpack_BBBBBB data =
     (if length data = 6 then Inr (map uint data) else Inl StructError)"

text \<open>\<open>fields.get(key, default)\<close>.\<close>

definition dict_get :: "('k \<rightharpoonup> 'v) \<Rightarrow> 'k \<Rightarrow> 'v \<Rightarrow> 'v" where
  "dict_get d k dflt = (case d k of None \<Rightarrow> dflt | Some v \<Rightarrow> v)"

text \<open>
  The second half of \<open>from_ble_device\<close>, from \<open>manufacturer_data = fields.get(255, b"")\<close>
  to the \<open>return\<close>, as a function of the dictionary \<open>fields\<close>, the MAC string and the
  id. The statements run in the order of the source, so the first one that raises decides
  the exception: the name is decoded before the manufacturer data is unpacked, and
  the colour is looked up before the mode.
\<close>

definition decode_fields :: "(u8 \<rightharpoonup> bytes) \<Rightarrow> pystr \<Rightarrow> int \<Rightarrow> error + QTDevice" where
  "decode_fields fields_dict mac_str ident =
     (let manufacturer_data = dict_get fields_dict 255 [] in
      case utf8_decode (dict_get fields_dict 9 []) of
        Inl e \<Rightarrow> Inl e
      | Inr nm \<Rightarrow>
     (case struct_unpack_BBBBBB manufacturer_data of
        Inl e \<Rightarrow> Inl e
      | Inr unpacked \<Rightarrow>
     (case QTColor_of_int
             (drop_bit 6 (unpacked ! 0 AND 0xC0) OR drop_bit 4 (unpacked ! 1 AND 0xC0)) of
        Inl e \<Rightarrow> Inl e
      | Inr c \<Rightarrow>
     (case QTMode_of_int
             (drop_bit 6 (unpacked ! 2 AND 0xC0) OR drop_bit 4 (unpacked ! 3 AND 0x40)) of
        Inl e \<Rightarrow> Inl e
      | Inr m \<Rightarrow>
          Inr \<lparr>ble_device_id = ident, name = nm, mac = mac_str, color = c, mode = m,
               armed = (unpacked ! 3 AND 0x80 \<noteq> 0),
               snowmode = (unpacked ! 4 AND 0x40 \<noteq> 0),
               vbat = real_of_int (unpacked ! 5 * 60) / 1000\<rparr>))))"

text \<open>
  The whole class method, with its three assertions. \<open>QTDevice\<close> is a table model,
  whose constructor stores its arguments as they are, so the \<open>return\<close> raises
  nothing.
\<close>

definition from_ble_device :: "BLEDevice \<Rightarrow> error + QTDevice" where
  "from_ble_device ble_device =
     (case dev_name ble_device of
        None \<Rightarrow> Inl AssertionError
      | Some _ \<Rightarrow>
     (case dev_raw_data ble_device of
        None \<Rightarrow> Inl AssertionError
      | Some raw \<Rightarrow>
     (case dev_id ble_device of
        None \<Rightarrow> Inl AssertionError
      | Some ident \<Rightarrow>
     (case collect_fields raw of
        Inl e \<Rightarrow> Inl e
      | Inr fields_dict \<Rightarrow> decode_fields fields_dict (dev_mac ble_device) ident))))"

section \<open>Buffers built from records\<close>

text \<open>
  The buffer of the round-trip property, following the specification's words: for
  each record the length byte \<open>len(value) + 1\<close>, then the type byte, then the value
  bytes, all concatenated.
\<close>

definition build_buffer :: "field list \<Rightarrow> bytes" where
  "build_buffer recs = concat (map (\<lambda>(t, v). of_nat (length v + 1) # t # v) recs)"

section \<open>Properties of the field parser\<close>

text \<open>The loop entered at \<open>offset\<close> sees only the bytes from \<open>offset\<close> on.\<close>

lemma iter_fields_from_drop:
  "iter_fields_from data offset = iter_fields_from (drop offset data) 0"
proof (induction "length data - offset" arbitrary: data offset rule: less_induct)
  case less
  show ?case
  proof (cases "offset < length data")
    case False
    then show ?thesis by (subst (1 2) iter_fields_from.simps) simp
  next
    case inb: True
    let ?L = "unat (data ! offset)"
    show ?thesis
    proof (cases "?L = 0 \<or> length data \<le> offset + 1")
      case True
      with inb show ?thesis
        by (subst (1 2) iter_fields_from.simps) (auto simp: Let_def)
    next
      case False
      with inb have L: "?L \<noteq> 0" and two: "offset + 1 < length data" by auto
      have a: "iter_fields_from data (offset + ?L + 1)
                 = iter_fields_from (drop (offset + ?L + 1) data) 0"
        using inb by (intro less) simp
      have b: "iter_fields_from (drop offset data) (?L + 1)
                 = iter_fields_from (drop (?L + 1) (drop offset data)) 0"
        using inb L by (intro less) auto
      have c: "drop (?L + 1) (drop offset data) = drop (offset + ?L + 1) data"
        by (simp add: add.commute add.left_commute)
      have rec: "iter_fields_from data (offset + ?L + 1)
                   = iter_fields_from (drop offset data) (0 + ?L + 1)"
        using a b c by simp
      have d: "slice (drop offset data) (0 + 2) (0 + ?L + 1)
                 = slice data (offset + 2) (offset + ?L + 1)"
        by (simp add: slice_def add.commute)
      have t: "drop offset data ! (0 + 1) = data ! (offset + 1)"
        using two by simp
      have nle: "\<not> length data - offset \<le> Suc 0"
        using two by arith
      have h: "drop offset data ! 0 = data ! offset"
        using inb by simp
      have lhs: "iter_fields_from data offset =
          (case iter_fields_from data (offset + ?L + 1) of
             (ys, e) \<Rightarrow>
               ((data ! (offset + 1), slice data (offset + 2) (offset + ?L + 1)) # ys, e))"
        using inb L two by (subst iter_fields_from.simps) (simp add: Let_def)
      have rhs: "iter_fields_from (drop offset data) 0 =
          (case iter_fields_from (drop offset data) (0 + ?L + 1) of
             (ys, e) \<Rightarrow>
               ((drop offset data ! (0 + 1),
                 slice (drop offset data) (0 + 2) (0 + ?L + 1)) # ys, e))"
        using inb L nle by (subst iter_fields_from.simps) (simp add: Let_def h)
      show ?thesis
        unfolding lhs rhs rec d t ..
    qed
  qed
qed

lemma iter_fields_Nil: "iter_fields [] = ([], None)"
  by (simp add: iter_fields_def iter_fields_from.simps)

lemma iter_fields_zero: "iter_fields (0 # rest) = ([], None)"
  by (simp add: iter_fields_def iter_fields_from.simps)

lemma iter_fields_lone_length: "L \<noteq> 0 \<Longrightarrow> iter_fields [L] = ([], Some IndexError)"
  by (simp add: iter_fields_def iter_fields_from.simps unat_eq_0)

lemma iter_fields_from_zero:
  "offset < length data \<Longrightarrow> data ! offset = 0 \<Longrightarrow> iter_fields_from data offset = ([], None)"
  by (subst iter_fields_from.simps) simp

text \<open>One turn of the loop on a buffer that holds a length byte and a type byte.\<close>

lemma iter_fields_record:
  assumes "L \<noteq> 0"
  shows "iter_fields (L # t # rest) =
           (case iter_fields (drop (unat L - 1) rest) of
              (ys, e) \<Rightarrow> ((t, take (unat L - 1) rest) # ys, e))"
proof -
  from assms have L: "unat L \<noteq> 0" by (simp add: unat_eq_0)
  have "iter_fields_from (L # t # rest) (unat L + 1)
          = iter_fields_from (drop (unat L - 1) rest) 0"
    using L by (subst iter_fields_from_drop) (cases "unat L", simp_all)
  then show ?thesis
    using L unfolding iter_fields_def
    by (subst iter_fields_from.simps) (simp add: Let_def slice_def)
qed

lemma iter_fields_whole_record:
  assumes "unat L = length v + 1"
  shows "iter_fields (L # t # v @ rest) =
           ((t, v) # fst (iter_fields rest), snd (iter_fields rest))"
proof -
  from assms have "L \<noteq> 0" by auto
  from iter_fields_record [OF this, of t "v @ rest"] assms show ?thesis
    by (simp add: case_prod_beta)
qed

lemma build_buffer_Cons:
  "build_buffer ((t, v) # recs) = of_nat (length v + 1) # t # v @ build_buffer recs"
  by (simp add: build_buffer_def)

lemma length_byte:
  "length v \<le> 254 \<Longrightarrow> unat (of_nat (length v + 1) :: u8) = length v + 1"
  by (rule of_nat_inverse [OF refl]) simp

lemma iter_fields_build_buffer_append:
  assumes "\<forall>r \<in> set recs. length (snd r) \<le> 254"
  shows "iter_fields (build_buffer recs @ rest) =
           (recs @ fst (iter_fields rest), snd (iter_fields rest))"
  using assms
proof (induction recs)
  case Nil
  then show ?case by (simp add: build_buffer_def)
next
  case (Cons r recs)
  obtain t v where r: "r = (t, v)" by (cases r)
  from Cons.prems r have len: "length v \<le> 254" by simp
  then have u: "unat (of_nat (length v + 1) :: u8) = length v + 1" by (rule length_byte)
  from Cons have IH: "iter_fields (build_buffer recs @ rest) =
           (recs @ fst (iter_fields rest), snd (iter_fields rest))" by simp
  have "iter_fields (build_buffer (r # recs) @ rest) =
          iter_fields (of_nat (length v + 1) # t # v @ (build_buffer recs @ rest))"
    by (simp only: r build_buffer_Cons append_Cons append_assoc)
  also have "\<dots> = ((t, v) # fst (iter_fields (build_buffer recs @ rest)),
                       snd (iter_fields (build_buffer recs @ rest)))"
    by (rule iter_fields_whole_record [OF u])
  also have "\<dots> = ((r # recs) @ fst (iter_fields rest), snd (iter_fields rest))"
    by (simp add: IH r)
  finally show ?case .
qed

text \<open>
  Claim C2. For every list of records whose values are at most 254 bytes long, the
  parser applied to the buffer built from them (length byte \<open>len(value) + 1\<close>, type
  byte, value bytes, for each record in turn) yields exactly those pairs, in the
  same order, and then returns without an exception.
\<close>

theorem parser_reproduces_built_records:
  assumes "\<forall>r \<in> set recs. length (snd r) \<le> 254"
  shows "iter_fields (build_buffer recs) = (recs, None)"
  using iter_fields_build_buffer_append [OF assms, of "[]"]
  by (simp add: iter_fields_Nil)

theorem parser_reproduces_built_records_witness:
  "iter_fields (build_buffer [(9, [0x51, 0x54]), (255, [1, 2, 3, 4, 5, 6]), (1, [])])
     = ([(9, [0x51, 0x54]), (255, [1, 2, 3, 4, 5, 6]), (1, [])], None)"
  by (rule parser_reproduces_built_records) simp

text \<open>
  Claim C3, as the code has it. After any well-formed records, a non-zero length
  byte that is the last byte of the buffer makes the parser raise \<open>IndexError\<close>
  (the type byte is read by index); a non-zero length byte \<open>L\<close> followed by the type
  byte and fewer than \<open>L - 1\<close> value bytes makes the parser yield the record with the
  bytes that are there (the value is read by a slice, which clips) and return
  without an exception.
\<close>

theorem truncated_record_type_raises_value_clips:
  assumes "\<forall>r \<in> set recs. length (snd r) \<le> 254" and "L \<noteq> 0"
  shows "iter_fields (build_buffer recs @ [L]) = (recs, Some IndexError)
       \<and> (length v < unat L - 1 \<longrightarrow>
            iter_fields (build_buffer recs @ L # t # v) = (recs @ [(t, v)], None))"
proof -
  have "iter_fields (L # t # v) = ([(t, v)], None)" if "length v < unat L - 1"
    using that by (subst iter_fields_record [OF assms(2)]) (simp add: iter_fields_Nil)
  then show ?thesis
    by (simp add: iter_fields_build_buffer_append [OF assms(1)]
        iter_fields_lone_length [OF assms(2)])
qed

theorem truncated_record_type_raises_value_clips_witness:
  "iter_fields (build_buffer [(9, [0x51])] @ [5]) = ([(9, [0x51])], Some IndexError)
   \<and> iter_fields (build_buffer [(9, [0x51])] @ 5 # 255 # [0xC0, 0x00])
       = ([(9, [0x51])] @ [(255, [0xC0, 0x00])], None)"
proof -
  have h1: "\<forall>r \<in> set [(9 :: u8, [0x51 :: u8])]. length (snd r) \<le> 254" by simp
  have h2: "(5 :: u8) \<noteq> 0" by simp
  have h3: "length [0xC0, 0x00 :: u8] < unat (5 :: u8) - 1" by simp
  from truncated_record_type_raises_value_clips [OF h1 h2, of "[0xC0, 0x00]" 255] h3
  show ?thesis by blast
qed

text \<open>
  The buffer \<open>[5, 9, 0x41]\<close> declares four value bytes and holds one: the parser
  yields the pair with the one byte and ends without an exception.
\<close>

theorem truncated_value_is_yielded_counterexample:
  "iter_fields [5, 9, 0x41] = ([(9, [0x41])], None)
   \<and> snd (iter_fields [5, 9, 0x41]) \<noteq> Some IndexError
   \<and> length [0x41 :: u8] < unat (5 :: u8) - 1"
  by (simp add: iter_fields_def iter_fields_from.simps slice_def)

text \<open>
  Claim C8. On the empty buffer the parser yields nothing; when the byte at the
  current offset is zero the loop stops there, yielding nothing more, whatever
  follows; so a buffer of well-formed records followed by a zero byte and any
  further bytes yields exactly those records, and the single zero byte yields
  nothing.
\<close>

theorem zero_length_byte_stops_parser:
  "iter_fields [] = ([], None) \<and> iter_fields [0] = ([], None)
   \<and> (offset < length data \<longrightarrow> data ! offset = 0 \<longrightarrow>
        iter_fields_from data offset = ([], None))
   \<and> ((\<forall>r \<in> set recs. length (snd r) \<le> 254) \<longrightarrow>
        iter_fields (build_buffer recs @ 0 # rest) = (recs, None))"
  by (simp add: iter_fields_Nil iter_fields_zero iter_fields_from_zero
      iter_fields_build_buffer_append)

theorem zero_length_byte_stops_parser_witness:
  "iter_fields_from [2, 9, 0x41, 0, 7, 7] 3 = ([], None)
   \<and> iter_fields (build_buffer [(9, [0x41])] @ 0 # [7, 7]) = ([(9, [0x41])], None)"
proof -
  have h1: "(3::nat) < length [2, 9, 0x41, 0, 7, 7 :: u8]" by simp
  have h2: "[2, 9, 0x41, 0, 7, 7 :: u8] ! 3 = 0" by simp
  have h3: "\<forall>r \<in> set [(9 :: u8, [0x41 :: u8])]. length (snd r) \<le> 254" by simp
  from zero_length_byte_stops_parser
         [of 3 "[2, 9, 0x41, 0, 7, 7]" "[(9, [0x41])]" "[7, 7]"] h1 h2 h3
  show ?thesis by blast
qed

section \<open>Termination of the parser\<close>

lemma loop_iterations_bound:
  "loop_iterations data offset \<le> (length data - offset + 1) div 2"
proof (induction data offset rule: loop_iterations.induct)
  case (1 data offset)
  show ?case
  proof (cases "offset < length data \<and> unat (data ! offset) \<noteq> 0 \<and> offset + 1 < length data")
    case True
    then have IH: "loop_iterations data (offset + unat (data ! offset) + 1)
                     \<le> (length data - (offset + unat (data ! offset) + 1) + 1) div 2"
      by (intro "1.IH") auto
    have "loop_iterations data offset
            = 1 + loop_iterations data (offset + unat (data ! offset) + 1)"
      using True by (subst loop_iterations.simps) (simp add: Let_def)
    with IH True show ?thesis by linarith
  next
    case False
    then have "loop_iterations data offset \<le> (if offset < length data then 1 else 0)"
      by (subst loop_iterations.simps) (auto simp: Let_def)
    then show ?thesis by (simp split: if_splits)
  qed
qed

lemma yields_le_iterations:
  "length (fst (iter_fields_from data offset)) \<le> loop_iterations data offset"
proof (induction data offset rule: iter_fields_from.induct)
  case (1 data offset)
  show ?case
  proof (cases "offset < length data \<and> unat (data ! offset) \<noteq> 0 \<and> offset + 1 < length data")
    case True
    then have IH: "length (fst (iter_fields_from data (offset + unat (data ! offset) + 1)))
                     \<le> loop_iterations data (offset + unat (data ! offset) + 1)"
      by (intro "1.IH") auto
    have a: "loop_iterations data offset
               = 1 + loop_iterations data (offset + unat (data ! offset) + 1)"
      using True by (subst loop_iterations.simps) (simp add: Let_def)
    have b: "length (fst (iter_fields_from data offset)) =
               1 + length (fst (iter_fields_from data (offset + unat (data ! offset) + 1)))"
      using True by (subst iter_fields_from.simps) (simp add: Let_def case_prod_beta)
    from a b IH show ?thesis by linarith
  next
    case False
    then have "fst (iter_fields_from data offset) = []"
      by (subst iter_fields_from.simps) (auto simp: Let_def)
    then show ?thesis by simp
  qed
qed

text \<open>
  Claim C10. The parser is a total function of the buffer (the recursion of
  \<open>iter_fields_from\<close> and of \<open>loop_iterations\<close> is proved to terminate, on the distance
  from the offset to the end of the buffer). Whenever the loop body does not stop,
  the length byte is at least 1, so the next offset is at least the offset plus 2,
  and the loop goes on from there; the body is entered at most half the buffer
  length plus one times, and every yield is one entry of the body.
\<close>

theorem parser_terminates_within_half_length:
  "loop_iterations data 0 \<le> length data div 2 + 1
   \<and> length (fst (iter_fields data)) \<le> loop_iterations data 0
   \<and> (offset < length data \<longrightarrow> data ! offset \<noteq> 0 \<longrightarrow> offset + 1 < length data \<longrightarrow>
        1 \<le> unat (data ! offset)
        \<and> offset + 2 \<le> offset + unat (data ! offset) + 1
        \<and> loop_iterations data offset
            = 1 + loop_iterations data (offset + unat (data ! offset) + 1)
        \<and> iter_fields_from data offset =
            (case iter_fields_from data (offset + unat (data ! offset) + 1) of
               (ys, e) \<Rightarrow>
                 ((data ! (offset + 1),
                   slice data (offset + 2) (offset + unat (data ! offset) + 1)) # ys, e)))"
proof -
  have "loop_iterations data 0 \<le> (length data - 0 + 1) div 2"
    by (rule loop_iterations_bound)
  then have A: "loop_iterations data 0 \<le> length data div 2 + 1" by linarith
  have Y: "length (fst (iter_fields data)) \<le> loop_iterations data 0"
    unfolding iter_fields_def by (rule yields_le_iterations)
  have B: "1 \<le> unat (data ! offset) \<and> offset + 2 \<le> offset + unat (data ! offset) + 1"
    if "data ! offset \<noteq> 0"
  proof -
    from that have "unat (data ! offset) \<noteq> 0" by (simp add: unat_eq_0)
    then show ?thesis by linarith
  qed
  have C: "loop_iterations data offset
            = 1 + loop_iterations data (offset + unat (data ! offset) + 1)"
    if "offset < length data" "data ! offset \<noteq> 0" "offset + 1 < length data"
    using that by (subst loop_iterations.simps) (simp add: Let_def unat_eq_0)
  have D: "iter_fields_from data offset =
            (case iter_fields_from data (offset + unat (data ! offset) + 1) of
               (ys, e) \<Rightarrow>
                 ((data ! (offset + 1),
                   slice data (offset + 2) (offset + unat (data ! offset) + 1)) # ys, e))"
    if "offset < length data" "data ! offset \<noteq> 0" "offset + 1 < length data"
    using that by (subst iter_fields_from.simps) (simp add: Let_def unat_eq_0)
  from A Y B C D show ?thesis by blast
qed

theorem parser_terminates_within_half_length_witness:
  "loop_iterations [2, 9, 0x41, 1, 7] 0 \<le> length [2, 9, 0x41, 1, 7 :: u8] div 2 + 1
   \<and> (0::nat) + 2 \<le> 0 + unat ([2, 9, 0x41, 1, 7 :: u8] ! 0) + 1
   \<and> loop_iterations [2, 9, 0x41, 1, 7] 0
       = 1 + loop_iterations [2, 9, 0x41, 1, 7] (0 + unat ([2, 9, 0x41, 1, 7 :: u8] ! 0) + 1)"
proof -
  have h1: "(0::nat) < length [2, 9, 0x41, 1, 7 :: u8]" by simp
  have h2: "[2, 9, 0x41, 1, 7 :: u8] ! 0 \<noteq> 0" by simp
  have h3: "(0::nat) + 1 < length [2, 9, 0x41, 1, 7 :: u8]" by simp
  from parser_terminates_within_half_length [of "[2, 9, 0x41, 1, 7]" 0] h1 h2 h3
  show ?thesis by blast
qed

section \<open>Properties of the collected dictionary\<close>

lemma store_fields_snoc: "store_fields (fs @ [(t, v)]) = (store_fields fs)(t \<mapsto> v)"
  by (simp add: store_fields_def)

lemma store_fields_append_other:
  "t \<notin> fst ` set post \<Longrightarrow> store_fields (fs @ post) t = store_fields fs t"
proof (induction post rule: rev_induct)
  case Nil
  then show ?case by simp
next
  case (snoc x post)
  obtain t' v' where x: "x = (t', v')" by (cases x)
  with snoc.prems have "t' \<noteq> t" and "t \<notin> fst ` set post" by auto
  with snoc.IH show ?case
    unfolding x append_assoc [symmetric] store_fields_snoc by simp
qed

text \<open>
  Claim C9. Whenever the parser's run on a buffer ends without an exception and
  \<open>(t, v)\<close> is the last pair of type code \<open>t\<close> that it yields (no later pair has that
  type code, any number of earlier ones may), the dictionary collected from the
  buffer maps \<open>t\<close> to \<open>v\<close>.
\<close>

theorem last_occurrence_of_type_wins:
  assumes "iter_fields data = (pre @ (t, v) # post, None)" and "t \<notin> fst ` set post"
  shows "\<exists>m. collect_fields data = Inr m \<and> m t = Some v"
proof -
  have "store_fields ((pre @ [(t, v)]) @ post) t = store_fields (pre @ [(t, v)]) t"
    using assms(2) by (rule store_fields_append_other)
  then have "store_fields (pre @ (t, v) # post) t = Some v"
    by (simp add: store_fields_snoc)
  with assms(1) show ?thesis by (simp add: collect_fields_def)
qed

theorem last_occurrence_of_type_wins_witness:
  "\<exists>m. collect_fields [2, 9, 0x41, 3, 9, 0x42, 0x43, 2, 1, 6] = Inr m
       \<and> m 9 = Some [0x42, 0x43]"
proof -
  have h1: "iter_fields [2, 9, 0x41, 3, 9, 0x42, 0x43, 2, 1, 6]
              = ([(9, [0x41])] @ (9, [0x42, 0x43]) # [(1, [6])], None)"
    by (simp add: iter_fields_def iter_fields_from.simps slice_def)
  have h2: "(9 :: u8) \<notin> fst ` set [(1 :: u8, [6 :: u8])]" by simp
  show ?thesis by (rule last_occurrence_of_type_wins [OF h1 h2])
qed

section \<open>Properties of the telemetry decoder\<close>



lemma QTColor_of_int_unmapped: "n < 1 \<or> 6 < n \<Longrightarrow> QTColor_of_int n = Inl ValueError"
  by (auto simp: QTColor_of_int_def)

lemma QTMode_of_int_unmapped: "n < 0 \<or> 8 < n \<Longrightarrow> QTMode_of_int n = Inl ValueError"
  by (auto simp: QTMode_of_int_def)

lemma QTColor_of_int_error: "QTColor_of_int n = Inl e \<Longrightarrow> e = ValueError"
  by (auto simp: QTColor_of_int_def split: if_splits)

lemma QTMode_of_int_error: "QTMode_of_int n = Inl e \<Longrightarrow> e = ValueError"
  by (auto simp: QTMode_of_int_def split: if_splits)

lemma decode_fields_name_error:
  "utf8_decode (dict_get fields_dict 9 []) = Inl e \<Longrightarrow> decode_fields fields_dict mac_str ident = Inl e"
  by (simp add: decode_fields_def)

lemma decode_fields_size_error:
  "utf8_decode (dict_get fields_dict 9 []) = Inr nm \<Longrightarrow> length (dict_get fields_dict 255 []) \<noteq> 6
   \<Longrightarrow> decode_fields fields_dict mac_str ident = Inl StructError"
  by (simp add: decode_fields_def struct_unpack_BBBBBB_def)

lemma decode_fields_payload:
  assumes "fields_dict 255 = Some [b0, b1, b2, b3, b4, b5]"
    and "utf8_decode (dict_get fields_dict 9 []) = Inr nm"
  shows "decode_fields fields_dict mac_str ident =
     (case QTColor_of_int (drop_bit 6 (uint b0 AND 0xC0) OR drop_bit 4 (uint b1 AND 0xC0)) of
        Inl e \<Rightarrow> Inl e
      | Inr c \<Rightarrow>
     (case QTMode_of_int (drop_bit 6 (uint b2 AND 0xC0) OR drop_bit 4 (uint b3 AND 0x40)) of
        Inl e \<Rightarrow> Inl e
      | Inr m \<Rightarrow>
          Inr \<lparr>ble_device_id = ident, name = nm, mac = mac_str, color = c, mode = m,
               armed = (uint b3 AND 0x80 \<noteq> 0),
               snowmode = (uint b4 AND 0x40 \<noteq> 0),
               vbat = real_of_int (uint b5 * 60) / 1000\<rparr>))"
  using assms
  by (simp add: decode_fields_def dict_get_def struct_unpack_BBBBBB_def cong: sum.case_cong)

lemma sum_cases: "(\<exists>e. x = Inl e) \<or> (\<exists>y. x = Inr y)"
  by (cases x) auto

text \<open>
  The mode integer is assembled from three bits, so it always lies between 0 and 7:
  the mode lookup never raises, and \<open>UNCONFIGURED\<close> is never decoded.
\<close>

lemma mode_int_range:
  "drop_bit 6 (uint (b2 :: u8) AND 0xC0) OR drop_bit 4 (uint (b3 :: u8) AND 0x40) \<in> {0..7}"
proof -
  let ?a = "drop_bit 6 (uint b2 AND 0xC0)" and ?b = "drop_bit 4 (uint b3 AND 0x40)"
  have "uint b2 AND 0xC0 \<le> 0xC0" by (rule AND_upper2) simp
  then have "(uint b2 AND 0xC0) div 64 \<le> 0xC0 div 64" by (rule zdiv_mono1) simp
  then have a: "?a \<le> 3" by (simp only: drop_bit_eq_div) simp
  have "uint b3 AND 0x40 \<le> 0x40" by (rule AND_upper2) simp
  then have "(uint b3 AND 0x40) div 16 \<le> 0x40 div 16" by (rule zdiv_mono1) simp
  then have b: "?b \<le> 4" by (simp only: drop_bit_eq_div) simp
  have a0: "0 \<le> ?a" and b0: "0 \<le> ?b" by simp_all
  have "?a OR ?b < 2 ^ 3" using a0 a b by (intro OR_upper) simp_all
  moreover have "0 \<le> ?a OR ?b" using a0 b0 by simp
  ultimately show ?thesis by simp
qed

text \<open>
  The whole method on an advertisement that holds the name \<open>QT\<close> and six bytes of
  manufacturer data.
\<close>

lemma from_ble_device_example:
  "from_ble_device \<lparr>dev_mac = [], dev_name = Some [81, 84],
       dev_raw_data = Some [3, 9, 0x51, 0x54, 7, 255, 0xC0, 0x00, 0xC0, 0x80, 0x40, 0xC8],
       dev_id = Some 42\<rparr>
     = Inr \<lparr>ble_device_id = 42, name = [81, 84], mac = [], color = LIGHTGREEN,
            mode = USER, armed = True, snowmode = True, vbat = 12\<rparr>"
proof -
  have "iter_fields [3, 9, 0x51, 0x54, 7, 255, 0xC0, 0x00, 0xC0, 0x80, 0x40, 0xC8]
          = ([(9, [0x51, 0x54]), (255, [0xC0, 0x00, 0xC0, 0x80, 0x40, 0xC8])], None)"
    by (simp add: iter_fields_def iter_fields_from.simps slice_def)
  then show ?thesis
    by (simp add: from_ble_device_def collect_fields_def store_fields_def decode_fields_def
        dict_get_def struct_unpack_BBBBBB_def QTColor_of_int_def QTMode_of_int_def emit_def)
qed

lemmas eval_defs = decode_fields_def dict_get_def struct_unpack_BBBBBB_def QTColor_of_int_def
  QTMode_of_int_def emit_def

text \<open>
  Claim C1, as the code has it. With any name field that decodes as UTF-8 (or none)
  and any MAC string, decoding the manufacturer payload
  \<open>[0x40, 0x80, 0xC0, 0xC0, 0x40, 0xC8]\<close> raises \<open>ValueError\<close>: its colour integer is
  \<open>(0x40 >> 6) | (0x80 >> 4) = 9\<close>, which no member of \<open>QTColor\<close> has. The record of the
  claim (LIGHTGREEN, USER, armed, snow mode, 12.0) is what the payload
  \<open>[0xC0, 0x00, 0xC0, 0x80, 0x40, 0xC8]\<close> decodes to.
\<close>

theorem spec_test_vector_raises_range_error:
  assumes "utf8_decode (dict_get fields_dict 9 []) = Inr nm"
  shows "(fields_dict 255 = Some [0x40, 0x80, 0xC0, 0xC0, 0x40, 0xC8] \<longrightarrow>
            decode_fields fields_dict mac_str ident = Inl ValueError)
       \<and> (fields_dict 255 = Some [0xC0, 0x00, 0xC0, 0x80, 0x40, 0xC8] \<longrightarrow>
            decode_fields fields_dict mac_str ident =
              Inr \<lparr>ble_device_id = ident, name = nm, mac = mac_str, color = LIGHTGREEN,
                   mode = USER, armed = True, snowmode = True, vbat = 12\<rparr>)"
proof -
  have A: "decode_fields fields_dict mac_str ident = Inl ValueError"
    if "fields_dict 255 = Some [0x40, 0x80, 0xC0, 0xC0, 0x40, 0xC8]"
    unfolding decode_fields_payload [OF that assms]
    by (simp add: QTColor_of_int_def)
  have B: "decode_fields fields_dict mac_str ident =
              Inr \<lparr>ble_device_id = ident, name = nm, mac = mac_str, color = LIGHTGREEN,
                   mode = USER, armed = True, snowmode = True, vbat = 12\<rparr>"
    if "fields_dict 255 = Some [0xC0, 0x00, 0xC0, 0x80, 0x40, 0xC8]"
    unfolding decode_fields_payload [OF that assms]
    by (simp add: QTColor_of_int_def QTMode_of_int_def)
  from A B show ?thesis by blast
qed

theorem spec_test_vector_raises_range_error_witness:
  "decode_fields [255 \<mapsto> [0x40, 0x80, 0xC0, 0xC0, 0x40, 0xC8], 9 \<mapsto> [0x51, 0x54]]
       [48, 48, 58, 49, 49, 58, 50, 50, 58, 51, 51, 58, 52, 52, 58, 53, 53] 1
     = Inl ValueError
   \<and> decode_fields [255 \<mapsto> [0xC0, 0x00, 0xC0, 0x80, 0x40, 0xC8], 9 \<mapsto> [0x51, 0x54]]
       [48, 48, 58, 49, 49, 58, 50, 50, 58, 51, 51, 58, 52, 52, 58, 53, 53] 1
     = Inr \<lparr>ble_device_id = 1, name = [81, 84],
            mac = [48, 48, 58, 49, 49, 58, 50, 50, 58, 51, 51, 58, 52, 52, 58, 53, 53],
            color = LIGHTGREEN, mode = USER, armed = True, snowmode = True, vbat = 12\<rparr>"
proof -
  let ?F1 = "[255 \<mapsto> [0x40, 0x80, 0xC0, 0xC0, 0x40, 0xC8], 9 \<mapsto> [0x51, 0x54 :: u8]] :: u8 \<rightharpoonup> bytes"
  let ?F2 = "[255 \<mapsto> [0xC0, 0x00, 0xC0, 0x80, 0x40, 0xC8], 9 \<mapsto> [0x51, 0x54 :: u8]] :: u8 \<rightharpoonup> bytes"
  have n1: "utf8_decode (dict_get ?F1 9 []) = Inr [81, 84]"
    by (simp add: dict_get_def emit_def)
  have n2: "utf8_decode (dict_get ?F2 9 []) = Inr [81, 84]"
    by (simp add: dict_get_def emit_def)
  have p1: "?F1 255 = Some [0x40, 0x80, 0xC0, 0xC0, 0x40, 0xC8]" by simp
  have p2: "?F2 255 = Some [0xC0, 0x00, 0xC0, 0x80, 0x40, 0xC8]" by simp
  from spec_test_vector_raises_range_error [OF n1]
    spec_test_vector_raises_range_error [OF n2] p1 p2
  show ?thesis by blast
qed

text \<open>
  The payload of the specification with the name \<open>QT\<close>: the call raises. Its colour
  integer is 9 and its mode integer is 7.
\<close>

theorem spec_test_vector_is_rejected_counterexample:
  "decode_fields [255 \<mapsto> [0x40, 0x80, 0xC0, 0xC0, 0x40, 0xC8], 9 \<mapsto> [0x51, 0x54]]
       [48, 48, 58, 49, 49, 58, 50, 50, 58, 51, 51, 58, 52, 52, 58, 53, 53] 1
     = Inl ValueError
   \<and> utf8_decode [0x51, 0x54] = Inr [81, 84]
   \<and> drop_bit 6 (uint (0x40 :: u8) AND 0xC0) OR drop_bit 4 (uint (0x80 :: u8) AND 0xC0) = 9
   \<and> drop_bit 6 (uint (0xC0 :: u8) AND 0xC0) OR drop_bit 4 (uint (0xC0 :: u8) AND 0x40) = 7"
  by (simp add: eval_defs)

text \<open>
  Claim C4, as the code has it. On a dictionary without the name field (type code 9)
  the decoder takes the empty byte string for the name, as \<open>fields.get(9, b"")\<close>
  says: it behaves as on the same dictionary with an empty name field, every
  record it produces has the empty name, and it does produce one whenever the
  manufacturer data is six bytes whose assembled colour and mode have members.
\<close>

theorem missing_name_defaults_to_empty:
  assumes "fields_dict 9 = None"
  shows "decode_fields fields_dict mac_str ident = decode_fields (fields_dict(9 \<mapsto> [])) mac_str ident
       \<and> (\<forall>r. decode_fields fields_dict mac_str ident = Inr r \<longrightarrow> name r = [])
       \<and> (\<forall>b0 b1 b2 b3 b4 b5 c m.
            fields_dict 255 = Some [b0, b1, b2, b3, b4, b5]
            \<longrightarrow> QTColor_of_int (drop_bit 6 (uint b0 AND 0xC0) OR drop_bit 4 (uint b1 AND 0xC0)) = Inr c
            \<longrightarrow> QTMode_of_int (drop_bit 6 (uint b2 AND 0xC0) OR drop_bit 4 (uint b3 AND 0x40)) = Inr m
            \<longrightarrow> decode_fields fields_dict mac_str ident =
                  Inr \<lparr>ble_device_id = ident, name = [], mac = mac_str, color = c, mode = m,
                       armed = (uint b3 AND 0x80 \<noteq> 0),
                       snowmode = (uint b4 AND 0x40 \<noteq> 0),
                       vbat = real_of_int (uint b5 * 60) / 1000\<rparr>)"
proof -
  from assms have nm: "utf8_decode (dict_get fields_dict 9 []) = Inr []"
    by (simp add: dict_get_def)
  have A: "decode_fields fields_dict mac_str ident = decode_fields (fields_dict(9 \<mapsto> [])) mac_str ident"
    using assms by (simp add: decode_fields_def dict_get_def)
  have B: "name r = []" if "decode_fields fields_dict mac_str ident = Inr r" for r
    using that nm
    by (auto simp: decode_fields_def Let_def split: sum.splits)
  have C: "decode_fields fields_dict mac_str ident =
                  Inr \<lparr>ble_device_id = ident, name = [], mac = mac_str, color = c, mode = m,
                       armed = (uint b3 AND 0x80 \<noteq> 0),
                       snowmode = (uint b4 AND 0x40 \<noteq> 0),
                       vbat = real_of_int (uint b5 * 60) / 1000\<rparr>"
    if "fields_dict 255 = Some [b0, b1, b2, b3, b4, b5]"
      "QTColor_of_int (drop_bit 6 (uint b0 AND 0xC0) OR drop_bit 4 (uint b1 AND 0xC0)) = Inr c"
      "QTMode_of_int (drop_bit 6 (uint b2 AND 0xC0) OR drop_bit 4 (uint b3 AND 0x40)) = Inr m"
    for b0 b1 b2 b3 b4 b5 c m
    unfolding decode_fields_payload [OF that(1) nm] using that(2,3) by simp
  from A B C show ?thesis by blast
qed

theorem missing_name_defaults_to_empty_witness:
  "decode_fields [255 \<mapsto> [0xC0, 0x00, 0xC0, 0x80, 0x40, 0xC8]] [] 1
     = decode_fields [255 \<mapsto> [0xC0, 0x00, 0xC0, 0x80, 0x40, 0xC8], 9 \<mapsto> []] [] 1
   \<and> decode_fields [255 \<mapsto> [0xC0, 0x00, 0xC0, 0x80, 0x40, 0xC8]] [] 1
     = Inr \<lparr>ble_device_id = 1, name = [], mac = [],
            color = LIGHTGREEN, mode = USER,
            armed = (uint (0x80 :: u8) AND 0x80 \<noteq> 0),
            snowmode = (uint (0x40 :: u8) AND 0x40 \<noteq> 0),
            vbat = real_of_int (uint (0xC8 :: u8) * 60) / 1000\<rparr>"
proof -
  let ?F = "[255 \<mapsto> [0xC0, 0x00, 0xC0, 0x80, 0x40, 0xC8 :: u8]] :: u8 \<rightharpoonup> bytes"
  have h: "?F 9 = None" by simp
  have p: "?F 255 = Some [0xC0, 0x00, 0xC0, 0x80, 0x40, 0xC8]" by simp
  have c: "QTColor_of_int (drop_bit 6 (uint (0xC0 :: u8) AND 0xC0)
             OR drop_bit 4 (uint (0x00 :: u8) AND 0xC0)) = Inr LIGHTGREEN"
    by (simp add: QTColor_of_int_def)
  have m: "QTMode_of_int (drop_bit 6 (uint (0xC0 :: u8) AND 0xC0)
             OR drop_bit 4 (uint (0x80 :: u8) AND 0x40)) = Inr USER"
    by (simp add: QTMode_of_int_def)
  from missing_name_defaults_to_empty [where fields_dict = ?F and mac_str = "[]" and ident = 1] h p c m
  show ?thesis by blast
qed

text \<open>A dictionary without a name field that is decoded, to a record with the empty name.\<close>

theorem missing_name_is_decoded_counterexample:
  "[255 \<mapsto> [0xC0, 0x00, 0xC0, 0x80, 0x40, 0xC8 :: u8]] (9 :: u8) = None
   \<and> decode_fields [255 \<mapsto> [0xC0, 0x00, 0xC0, 0x80, 0x40, 0xC8]]
       [48, 48, 58, 49, 49, 58, 50, 50, 58, 51, 51, 58, 52, 52, 58, 53, 53] 1
     = Inr \<lparr>ble_device_id = 1, name = [],
            mac = [48, 48, 58, 49, 49, 58, 50, 50, 58, 51, 51, 58, 52, 52, 58, 53, 53],
            color = LIGHTGREEN, mode = USER, armed = True, snowmode = True, vbat = 12\<rparr>"
  by (simp add: eval_defs)

text \<open>
  Claim C5, as the code has it. When the manufacturer-data field is absent or its
  value is not exactly six bytes long, decoding fails and no record is produced;
  the exception is \<open>struct.error\<close> whenever the name bytes decode as UTF-8, and that
  of the name otherwise, since the name is decoded before the manufacturer data is
  unpacked. Decoding succeeds only on a manufacturer-data value of exactly six
  bytes.
\<close>

theorem wrong_size_manufacturer_data_fails:
  "((fields_dict 255 = None \<or> (\<exists>p. fields_dict 255 = Some p \<and> length p \<noteq> 6)) \<longrightarrow>
      (\<exists>e. decode_fields fields_dict mac_str ident = Inl e)
      \<and> (\<forall>nm. utf8_decode (dict_get fields_dict 9 []) = Inr nm \<longrightarrow>
              decode_fields fields_dict mac_str ident = Inl StructError)
      \<and> (\<forall>e. utf8_decode (dict_get fields_dict 9 []) = Inl e \<longrightarrow>
              decode_fields fields_dict mac_str ident = Inl e))
   \<and> (\<forall>r. decode_fields fields_dict mac_str ident = Inr r \<longrightarrow>
          (\<exists>p. fields_dict 255 = Some p \<and> length p = 6))"
proof -
  have len: "length (dict_get fields_dict 255 []) \<noteq> 6"
    if "fields_dict 255 = None \<or> (\<exists>p. fields_dict 255 = Some p \<and> length p \<noteq> 6)"
    using that by (auto simp: dict_get_def)
  have A: "decode_fields fields_dict mac_str ident = Inl StructError"
    if "fields_dict 255 = None \<or> (\<exists>p. fields_dict 255 = Some p \<and> length p \<noteq> 6)"
      and "utf8_decode (dict_get fields_dict 9 []) = Inr nm" for nm
    using that(2) len [OF that(1)] by (rule decode_fields_size_error)
  have B: "decode_fields fields_dict mac_str ident = Inl e"
    if "utf8_decode (dict_get fields_dict 9 []) = Inl e" for e
    using that by (rule decode_fields_name_error)
  have C: "\<exists>e. decode_fields fields_dict mac_str ident = Inl e"
    if "fields_dict 255 = None \<or> (\<exists>p. fields_dict 255 = Some p \<and> length p \<noteq> 6)"
    using A [OF that] B sum_cases [of "utf8_decode (dict_get fields_dict 9 [])"] by blast
  have D: "\<exists>p. fields_dict 255 = Some p \<and> length p = 6"
    if "decode_fields fields_dict mac_str ident = Inr r" for r
  proof (rule ccontr)
    assume "\<not> (\<exists>p. fields_dict 255 = Some p \<and> length p = 6)"
    then have "fields_dict 255 = None \<or> (\<exists>p. fields_dict 255 = Some p \<and> length p \<noteq> 6)"
      by (cases "fields_dict 255") auto
    from C [OF this] that show False by auto
  qed
  from A B C D show ?thesis by blast
qed

theorem wrong_size_manufacturer_data_fails_witness:
  "decode_fields [9 \<mapsto> [0x51, 0x54]] [] 1 = Inl StructError
   \<and> decode_fields [9 \<mapsto> [0x51, 0x54], 255 \<mapsto> [1, 2, 3]] [] 1 = Inl StructError
   \<and> (\<exists>p. [255 \<mapsto> [0xC0, 0x00, 0xC0, 0x80, 0x40, 0xC8 :: u8]] (255 :: u8) = Some p
          \<and> length p = 6)"
proof -
  let ?F1 = "[9 \<mapsto> [0x51, 0x54 :: u8]] :: u8 \<rightharpoonup> bytes"
  let ?F2 = "[9 \<mapsto> [0x51, 0x54], 255 \<mapsto> [1, 2, 3 :: u8]] :: u8 \<rightharpoonup> bytes"
  let ?F3 = "[255 \<mapsto> [0xC0, 0x00, 0xC0, 0x80, 0x40, 0xC8 :: u8]] :: u8 \<rightharpoonup> bytes"
  have a1: "?F1 255 = None \<or> (\<exists>p. ?F1 255 = Some p \<and> length p \<noteq> 6)" by simp
  have a2: "?F2 255 = None \<or> (\<exists>p. ?F2 255 = Some p \<and> length p \<noteq> 6)" by simp
  have n1: "utf8_decode (dict_get ?F1 9 []) = Inr [81, 84]"
    by (simp add: dict_get_def emit_def)
  have n2: "utf8_decode (dict_get ?F2 9 []) = Inr [81, 84]"
    by (simp add: dict_get_def emit_def)
  have s3: "decode_fields ?F3 [] 1 = Inr \<lparr>ble_device_id = 1, name = [], mac = [],
            color = LIGHTGREEN, mode = USER, armed = True, snowmode = True, vbat = 12\<rparr>"
    by (simp add: eval_defs)
  from wrong_size_manufacturer_data_fails [of ?F1 "[]" 1]
    wrong_size_manufacturer_data_fails [of ?F2 "[]" 1]
    wrong_size_manufacturer_data_fails [of ?F3 "[]" 1] a1 a2 n1 n2 s3
  show ?thesis by blast
qed

text \<open>
  A one-byte manufacturer-data field beside a name that is not UTF-8: the exception
  is that of the name, not \<open>struct.error\<close>.
\<close>

theorem invalid_name_hides_size_error_counterexample:
  "decode_fields [9 \<mapsto> [0xFF], 255 \<mapsto> [0x00]] [] 1 = Inl UnicodeDecodeError
   \<and> [9 \<mapsto> [0xFF], 255 \<mapsto> [0x00 :: u8]] (255 :: u8) = Some [0x00]
   \<and> length [0x00 :: u8] \<noteq> 6"
  by (simp add: eval_defs)



text \<open>
  Claim C7, as the code has it. When the six bytes of manufacturer data assemble a
  colour integer outside \<open>1 .. 6\<close> or a mode integer outside \<open>0 .. 8\<close>, decoding
  fails and no record is produced, so no default member is ever substituted. The
  exception is \<open>ValueError\<close> whenever the name bytes decode as UTF-8; the name is
  decoded first, so when they do not, the exception is that of the name.
\<close>

theorem unmapped_color_or_mode_fails:
  assumes "fields_dict 255 = Some [b0, b1, b2, b3, b4, b5]"
    and "drop_bit 6 (uint b0 AND 0xC0) OR drop_bit 4 (uint b1 AND 0xC0) \<notin> {1..6}
         \<or> drop_bit 6 (uint b2 AND 0xC0) OR drop_bit 4 (uint b3 AND 0x40) \<notin> {0..8}"
  shows "(\<exists>e. decode_fields fields_dict mac_str ident = Inl e)
       \<and> (\<forall>nm. utf8_decode (dict_get fields_dict 9 []) = Inr nm \<longrightarrow>
              decode_fields fields_dict mac_str ident = Inl ValueError)
       \<and> (\<forall>e. utf8_decode (dict_get fields_dict 9 []) = Inl e \<longrightarrow>
              decode_fields fields_dict mac_str ident = Inl e)"
proof -
  have A: "decode_fields fields_dict mac_str ident = Inl ValueError"
    if "utf8_decode (dict_get fields_dict 9 []) = Inr nm" for nm
    unfolding decode_fields_payload [OF assms(1) that]
    using assms(2)
    by (auto split: sum.splits dest: QTColor_of_int_error QTMode_of_int_error
        simp: QTColor_of_int_unmapped QTMode_of_int_unmapped)
  have B: "decode_fields fields_dict mac_str ident = Inl e"
    if "utf8_decode (dict_get fields_dict 9 []) = Inl e" for e
    using that by (rule decode_fields_name_error)
  from A B sum_cases [of "utf8_decode (dict_get fields_dict 9 [])"] show ?thesis
    by blast
qed

theorem unmapped_color_or_mode_fails_witness:
  "decode_fields [9 \<mapsto> [0x51, 0x54], 255 \<mapsto> [0x40, 0x80, 0xC0, 0xC0, 0x40, 0xC8]] [] 1
     = Inl ValueError"
proof -
  let ?F = "[9 \<mapsto> [0x51, 0x54], 255 \<mapsto> [0x40, 0x80, 0xC0, 0xC0, 0x40, 0xC8 :: u8]] :: u8 \<rightharpoonup> bytes"
  have p: "?F 255 = Some [0x40, 0x80, 0xC0, 0xC0, 0x40, 0xC8]" by simp
  have c: "drop_bit 6 (uint (0x40 :: u8) AND 0xC0) OR drop_bit 4 (uint (0x80 :: u8) AND 0xC0) \<notin> {1..6}
         \<or> drop_bit 6 (uint (0xC0 :: u8) AND 0xC0) OR drop_bit 4 (uint (0xC0 :: u8) AND 0x40) \<notin> {0..8}"
    by simp
  have n: "utf8_decode (dict_get ?F 9 []) = Inr [81, 84]"
    by (simp add: dict_get_def emit_def)
  from unmapped_color_or_mode_fails [where fields_dict = ?F and mac_str = "[]" and ident = 1, OF p c] n
  show ?thesis by blast
qed

text \<open>
  A payload whose colour integer is 0 beside a name that is not UTF-8: the exception
  is that of the name, not \<open>ValueError\<close>.
\<close>

theorem invalid_name_hides_range_error_counterexample:
  "decode_fields [9 \<mapsto> [0xFF], 255 \<mapsto> [0, 0, 0, 0, 0, 0]] [] 1 = Inl UnicodeDecodeError
   \<and> drop_bit 6 (uint (0 :: u8) AND 0xC0) OR drop_bit 4 (uint (0 :: u8) AND 0xC0)
       \<notin> {1 .. 6 :: int}"
  by (simp add: eval_defs)

end
